theory Spec2Isabelle
  imports Complex_Main "HOL-Library.Word"
begin

section \<open>The timeline compositor of src/components/ProductionMonitor.tsx\<close>

text \<open>
  The development embeds \<^verbatim>\<open>loadAsset\<close>, \<^verbatim>\<open>renderVideoBlob\<close> and
  \<^verbatim>\<open>drawImageContain\<close>. JavaScript numbers are modelled as exact rationals
  (\<^typ>\<open>rat\<close>); a number that may be \<^verbatim>\<open>NaN\<close> or \<^verbatim>\<open>undefined\<close> is a
  \<^typ>\<open>rat option\<close> with \<^const>\<open>None\<close> for both. Rounding of IEEE doubles and the value
  \<^verbatim>\<open>Infinity\<close> are outside the model. What the browser answers (decoded media,
  the audio clock read at each animation frame, the events of the recorder) is an
  explicit argument, the record \<open>Browser\<close>.
\<close>

subsection \<open>Data (src/types.ts and the DOM objects the code reads)\<close>

datatype AssetType = Image | Video

datatype AspectRatio = Landscape_16_9 | Portrait_9_16

record Asset =
  asset_id :: string
  asset_type :: AssetType
  url :: string
  thumbnailUrl :: "string option"

record GeneratedContent =
  audioUrl :: "string option"
  assets :: "Asset list"
  aspectRatio :: AspectRatio

text \<open>
  A decoded handle: an image carries \<^verbatim>\<open>width\<close> and \<^verbatim>\<open>height\<close>, a video
  \<^verbatim>\<open>videoWidth\<close>, \<^verbatim>\<open>videoHeight\<close> (unsigned integers) and \<^verbatim>\<open>duration\<close>
  (a number, \<^verbatim>\<open>NaN\<close> when unknown).
\<close>

datatype Element =
    HTMLImageElement (width: nat) (height: nat)
  | HTMLVideoElement (videoWidth: nat) (videoHeight: nat) (videoDuration: "rat option")

datatype Blob = Blob (bytes: "8 word list") (mime: string)

datatype error =
    Error string
  | TypeError
  | LoadRejected string
  | AudioRejected
  | RecorderError

datatype RecorderEvent = DataAvailable Blob | ErrorEvent

record Browser =
  decode_image :: "string \<Rightarrow> (nat \<times> nat) option"
  decode_video :: "string \<Rightarrow> (nat \<times> nat \<times> rat option) option"
  context2d :: bool
  decode_audio :: "string \<Rightarrow> rat option"
  clock :: "rat list"
  recorder_events :: "RecorderEvent list"

text \<open>One entry of the local array \<^verbatim>\<open>timeline\<close>; the field \<^verbatim>\<open>end\<close> is \<open>endT\<close>.\<close>

record TimelineItem =
  assetIndex :: nat
  start :: rat
  endT :: rat
  item_type :: AssetType
  element :: "Element option"
  duration :: rat

datatype Effect =
    FillRect string rat rat rat rat
  | DrawImage Element rat rat rat rat
  | SetCurrentTime Element "rat option"
  | RecorderStart
  | SourceStart
  | RecorderStop
  | AudioClose

datatype Tick = Stop | Next | Throws error

datatype Outcome = Pending | Rejected error | Resolved Blob

subsection \<open>Asset loading\<close>

text \<open>
  \<^verbatim>\<open>loadAsset\<close>: a video resolves on \<^verbatim>\<open>onloadedmetadata\<close>, an image on
  \<^verbatim>\<open>onload\<close>; either rejects on \<^verbatim>\<open>onerror\<close>.
\<close>

definition loadAsset :: "Browser \<Rightarrow> Asset \<Rightarrow> error + Element" where
  "loadAsset b asset =
     (if asset_type asset = Video then
        (case decode_video b (url asset) of
           None \<Rightarrow> Inl (LoadRejected (url asset))
         | Some (w, h, d) \<Rightarrow> Inr (HTMLVideoElement w h d))
      else
        (case decode_image b (url asset) of
           None \<Rightarrow> Inl (LoadRejected (url asset))
         | Some (w, h) \<Rightarrow> Inr (HTMLImageElement w h)))"

text \<open>\<^verbatim>\<open>Promise.all(content.assets.map(loadAsset))\<close>: the first rejection rejects the whole.\<close>

fun loadAll :: "Browser \<Rightarrow> Asset list \<Rightarrow> error + Element list" where
  "loadAll b [] = Inr []"
| "loadAll b (a # as) =
     (case loadAsset b a of
        Inl e \<Rightarrow> Inl e
      | Inr el \<Rightarrow> (case loadAll b as of Inl e \<Rightarrow> Inl e | Inr els \<Rightarrow> Inr (el # els)))"

subsection \<open>The timeline loop\<close>

text \<open>\<^verbatim>\<open>x || 5\<close> on a number: \<^verbatim>\<open>0\<close>, \<^verbatim>\<open>NaN\<close> and \<^verbatim>\<open>undefined\<close> are falsy.\<close>

definition or_default :: "rat option \<Rightarrow> rat \<Rightarrow> rat" where
  "or_default x v = (case x of None \<Rightarrow> v | Some y \<Rightarrow> if y = 0 then v else y)"

text \<open>\<^verbatim>\<open>(element as HTMLVideoElement).duration\<close>: an image has no such property.\<close>

fun duration_of :: "Element \<Rightarrow> rat option" where
  "duration_of (HTMLImageElement w h) = None"
| "duration_of (HTMLVideoElement w h d) = d"

text \<open>
  The \<^verbatim>\<open>while (cursor < totalDuration)\<close> loop. An index into an empty array is
  \<^verbatim>\<open>undefined\<close>: reading \<^verbatim>\<open>asset.type\<close> or \<^verbatim>\<open>element.duration\<close> of it throws a
  TypeError, and an undefined element of an image occurrence is stored as it is
  (\<^const>\<open>None\<close>). The loop need not end, so not returning is the value \<^const>\<open>None\<close>.
\<close>

partial_function (option) timeline_loop ::
  "Asset list \<Rightarrow> Element list \<Rightarrow> rat \<Rightarrow> rat \<Rightarrow> nat \<Rightarrow> TimelineItem list
     \<Rightarrow> (error + TimelineItem list) option" where
  "timeline_loop assetList loadedAssets totalDuration cursor assetIdx timeline =
     (if cursor < totalDuration then
        (if assetList = [] then Some (Inl TypeError)
         else
           let asset = assetList ! (assetIdx mod length assetList);
               el = (if loadedAssets = [] then None
                     else Some (loadedAssets ! (assetIdx mod length loadedAssets)))
           in if asset_type asset = Video \<and> el = None then Some (Inl TypeError)
              else
                let d = (if asset_type asset = Video
                         then or_default (duration_of (the el)) 5 else 5)
                in timeline_loop assetList loadedAssets totalDuration (cursor + d) (Suc assetIdx)
                     (timeline @
                       [\<lparr>assetIndex = assetIdx, start = cursor, endT = cursor + d,
                         item_type = asset_type asset, element = el, duration = d\<rparr>]))
      else Some (Inr timeline))"

declare timeline_loop.simps [code]

definition build_timeline ::
  "Asset list \<Rightarrow> Element list \<Rightarrow> rat \<Rightarrow> (error + TimelineItem list) option" where
  "build_timeline assetList loadedAssets totalDuration =
     timeline_loop assetList loadedAssets totalDuration 0 0 []"

subsection \<open>Drawing one frame\<close>

text \<open>
  The test \<^verbatim>\<open>imgAspect > cw / ch\<close>. With \<^verbatim>\<open>ch = 0\<close> the quotient is
  \<^verbatim>\<open>-Infinity\<close> for negative \<^verbatim>\<open>cw\<close> (the test holds) and \<^verbatim>\<open>Infinity\<close> or
  \<^verbatim>\<open>NaN\<close> otherwise (the test fails).
\<close>

definition wider_than_canvas :: "rat \<Rightarrow> rat \<Rightarrow> rat \<Rightarrow> bool" where
  "wider_than_canvas imgAspect cw ch =
     (if ch = 0 then cw < 0 else imgAspect > cw / ch)"

definition drawImageContain :: "Element option \<Rightarrow> rat \<Rightarrow> rat \<Rightarrow> error + Effect list" where
  "drawImageContain img cw ch =
     (case img of
        None \<Rightarrow> Inl TypeError
      | Some e \<Rightarrow>
          let imgWidth = (case e of HTMLVideoElement vw vh d \<Rightarrow> vw | HTMLImageElement w h \<Rightarrow> w);
              imgHeight = (case e of HTMLVideoElement vw vh d \<Rightarrow> vh | HTMLImageElement w h \<Rightarrow> h)
          in if imgWidth = 0 \<or> imgHeight = 0 then Inr []
             else
               let imgAspect = rat_of_nat imgWidth / rat_of_nat imgHeight
               in if wider_than_canvas imgAspect cw ch then
                    (let renderW = cw;
                         renderH = cw / imgAspect;
                         offsetX = 0;
                         offsetY = (ch - renderH) / 2
                     in Inr [DrawImage e offsetX offsetY renderW renderH])
                  else
                    (let renderH = ch;
                         renderW = ch * imgAspect;
                         offsetY = 0;
                         offsetX = (cw - renderW) / 2
                     in Inr [DrawImage e offsetX offsetY renderW renderH]))"

text \<open>
  The remainder operator \<^verbatim>\<open>%\<close> on numbers: the quotient is truncated towards zero,
  and a zero divisor gives \<^verbatim>\<open>NaN\<close>.
\<close>

definition js_trunc :: "rat \<Rightarrow> int" where
  "js_trunc q = (if 0 \<le> q then \<lfloor>q\<rfloor> else \<lceil>q\<rceil>)"

definition js_rem :: "rat \<Rightarrow> rat \<Rightarrow> rat option" where
  "js_rem x d = (if d = 0 then None else Some (x - d * of_int (js_trunc (x / d))))"

text \<open>
  \<^verbatim>\<open>timeline.find(t => elapsed >= t.start && elapsed < t.end) || timeline[timeline.length-1]\<close>
\<close>

definition activeItem :: "TimelineItem list \<Rightarrow> rat \<Rightarrow> TimelineItem option" where
  "activeItem timeline elapsed =
     (case List.find (\<lambda>t. elapsed \<ge> start t \<and> elapsed < endT t) timeline of
        Some t \<Rightarrow> Some t
      | None \<Rightarrow> (if timeline = [] then None else Some (last timeline)))"

text \<open>The body of \<^verbatim>\<open>if (activeItem) { ... }\<close>: the effects, and the error thrown if any.\<close>

definition drawFrame :: "rat \<Rightarrow> rat \<Rightarrow> TimelineItem \<Rightarrow> rat \<Rightarrow> Effect list \<times> error option" where
  "drawFrame cw ch item elapsed =
     (let clear = FillRect ''#000000'' 0 0 cw ch
      in if item_type item = Image then
           (case drawImageContain (element item) cw ch of
              Inl e \<Rightarrow> ([clear], Some e)
            | Inr fx \<Rightarrow> (clear # fx, None))
         else
           (case element item of
              None \<Rightarrow> ([clear], Some TypeError)
            | Some vid \<Rightarrow>
                let vidTime = js_rem (elapsed - start item) (duration item)
                in (case drawImageContain (Some vid) cw ch of
                      Inl e \<Rightarrow> ([clear, SetCurrentTime vid vidTime], Some e)
                    | Inr fx \<Rightarrow> (clear # SetCurrentTime vid vidTime # fx, None))))"

text \<open>One call of \<^verbatim>\<open>renderLoop\<close>, with the value of \<^verbatim>\<open>elapsed\<close> it reads.\<close>

definition renderLoop ::
  "TimelineItem list \<Rightarrow> rat \<Rightarrow> rat \<Rightarrow> rat \<Rightarrow> rat \<Rightarrow> Effect list \<times> Tick" where
  "renderLoop timeline totalDuration cw ch elapsed =
     (if elapsed \<ge> totalDuration then ([RecorderStop], Stop)
      else
        (case activeItem timeline elapsed of
           None \<Rightarrow> ([], Next)
         | Some item \<Rightarrow>
             (case drawFrame cw ch item elapsed of
                (fx, Some e) \<Rightarrow> (fx, Throws e)
              | (fx, None) \<Rightarrow> (fx, Next))))"

text \<open>
  The calls that \<^verbatim>\<open>requestAnimationFrame\<close> makes, one for each reading of the clock,
  as long as the loop asks for another frame. When the readings are used up the loop is
  still waiting.
\<close>

fun animation ::
  "TimelineItem list \<Rightarrow> rat \<Rightarrow> rat \<Rightarrow> rat \<Rightarrow> rat list \<Rightarrow> Effect list \<times> Tick" where
  "animation timeline totalDuration cw ch [] = ([], Next)"
| "animation timeline totalDuration cw ch (elapsed # later) =
     (case renderLoop timeline totalDuration cw ch elapsed of
        (fx, Next) \<Rightarrow>
          (case animation timeline totalDuration cw ch later of (fx', r) \<Rightarrow> (fx @ fx', r))
      | (fx, r) \<Rightarrow> (fx, r))"

subsection \<open>The recorder and the promise\<close>

definition ondataavailable :: "Blob list \<Rightarrow> Blob \<Rightarrow> Blob list" where
  "ondataavailable chunks d = (if length (bytes d) > 0 then chunks @ [d] else chunks)"

definition onstop :: "Blob list \<Rightarrow> Blob" where
  "onstop chunks = Blob (concat (map bytes chunks)) ''video/webm''"

text \<open>The events the recorder fires up to its stop event, handled in order.\<close>

fun deliver :: "RecorderEvent list \<Rightarrow> Blob list \<Rightarrow> error + Blob list" where
  "deliver [] chunks = Inr chunks"
| "deliver (DataAvailable d # es) chunks = deliver es (ondataavailable chunks d)"
| "deliver (ErrorEvent # es) chunks = Inl RecorderError"

text \<open>What happens once the frames have run: \<^verbatim>\<open>onerror\<close> rejects, \<^verbatim>\<open>onstop\<close> resolves.\<close>

definition settle :: "RecorderEvent list \<Rightarrow> Effect list \<Rightarrow> Tick \<Rightarrow> Effect list \<times> Outcome" where
  "settle events fx r =
     (case deliver events [] of
        Inl e \<Rightarrow> (fx @ [AudioClose], Rejected e)
      | Inr chunks \<Rightarrow>
          (if r = Stop then (fx @ [AudioClose], Resolved (onstop chunks))
           else (fx, Pending)))"

text \<open>
  \<^verbatim>\<open>renderVideoBlob\<close>: the effects on recorder, audio source and canvas in order, and
  how the returned promise ends. An exception in the promise executor (the timeline loop
  and the first call of \<^verbatim>\<open>renderLoop\<close>) rejects the promise; one in a later animation
  frame leaves it pending.
\<close>

definition renderVideoBlob :: "GeneratedContent \<Rightarrow> Browser \<Rightarrow> Effect list \<times> Outcome" where
  "renderVideoBlob content b =
     (if audioUrl content = None \<or> audioUrl content = Some [] \<or> assets content = []
      then ([], Rejected (Error ''Missing content''))
      else
        let isPortrait = (aspectRatio content = Portrait_9_16);
            cw = (if isPortrait then 1080 else 1920);
            ch = (if isPortrait then 1920 else 1080)
        in if \<not> context2d b then ([], Rejected (Error ''No canvas context''))
           else
             (case loadAll b (assets content) of
                Inl e \<Rightarrow> ([], Rejected e)
              | Inr loadedAssets \<Rightarrow>
                  (case decode_audio b (the (audioUrl content)) of
                     None \<Rightarrow> ([], Rejected AudioRejected)
                   | Some totalDuration \<Rightarrow>
                       (let started = [RecorderStart, SourceStart]
                        in case build_timeline (assets content) loadedAssets totalDuration of
                             None \<Rightarrow> (started, Pending)
                           | Some (Inl e) \<Rightarrow> (started, Rejected e)
                           | Some (Inr timeline) \<Rightarrow>
                               (case clock b of
                                  [] \<Rightarrow> (started, Pending)
                                | elapsed # later \<Rightarrow>
                                    (case renderLoop timeline totalDuration cw ch elapsed of
                                       (fx, Throws e) \<Rightarrow> (started @ fx, Rejected e)
                                     | (fx, Stop) \<Rightarrow>
                                         settle (recorder_events b) (started @ fx) Stop
                                     | (fx, Next) \<Rightarrow>
                                         (case animation timeline totalDuration cw ch later of
                                            (fx', r) \<Rightarrow>
                                              settle (recorder_events b)
                                                (started @ fx @ fx') r)))))))"

subsection \<open>Predicates used to state the properties\<close>

text \<open>
  The \<^verbatim>\<open>duration\<close> attribute of a media element is never negative. This is the only
  assumption on the decoded handles.
\<close>

definition durations_ok :: "Element list \<Rightarrow> bool" where
  "durations_ok els =
     list_all (\<lambda>e. case duration_of e of None \<Rightarrow> True | Some d \<Rightarrow> 0 \<le> d) els"

text \<open>The shortest duration the loop can give to an occurrence.\<close>

definition min_duration :: "Element list \<Rightarrow> rat" where
  "min_duration els = foldr (\<lambda>e m. min (or_default (duration_of e) 5) m) els 5"

text \<open>
  \<open>seq_from a items b\<close>: the items follow one another from time \<open>a\<close> to time \<open>b\<close>, each
  starting where the one before ends, each with a positive duration that is its span.
\<close>

fun seq_from :: "rat \<Rightarrow> TimelineItem list \<Rightarrow> rat \<Rightarrow> bool" where
  "seq_from a [] b = (a = b)"
| "seq_from a (s # ss) b =
     (start s = a \<and> 0 < duration s \<and> endT s = start s + duration s \<and> seq_from (endT s) ss b)"

text \<open>The payloads of the data events, in arrival order.\<close>

fun datas :: "RecorderEvent list \<Rightarrow> Blob list" where
  "datas [] = []"
| "datas (DataAvailable d # es) = d # datas es"
| "datas (ErrorEvent # es) = datas es"

text \<open>
  The dimensions \<^verbatim>\<open>drawImageContain\<close> reads from a frame: \<^verbatim>\<open>videoWidth\<close> and
  \<^verbatim>\<open>videoHeight\<close> of a video, \<^verbatim>\<open>width\<close> and \<^verbatim>\<open>height\<close> of an image.
\<close>

definition naturalWidth :: "Element \<Rightarrow> nat" where
  "naturalWidth e = (case e of HTMLVideoElement vw vh d \<Rightarrow> vw | HTMLImageElement w h \<Rightarrow> w)"

definition naturalHeight :: "Element \<Rightarrow> nat" where
  "naturalHeight e = (case e of HTMLVideoElement vw vh d \<Rightarrow> vh | HTMLImageElement w h \<Rightarrow> h)"

subsection \<open>Spans and sample inputs\<close>

text \<open>The pairs \<open>(start, end)\<close> of a timeline, and of the timeline built for an input.\<close>

definition spans :: "TimelineItem list \<Rightarrow> (rat \<times> rat) list" where
  "spans timeline = map (\<lambda>t. (start t, endT t)) timeline"

definition timeline_spans :: "Asset list \<Rightarrow> Element list \<Rightarrow> rat \<Rightarrow> (rat \<times> rat) list option" where
  "timeline_spans assetList loadedAssets totalDuration =
     (case build_timeline assetList loadedAssets totalDuration of
        Some (Inr timeline) \<Rightarrow> Some (spans timeline)
      | _ \<Rightarrow> None)"

text \<open>Concrete inputs on which the theorems below are evaluated.\<close>

definition sample_image :: Asset where
  "sample_image = \<lparr>asset_id = ''a1'', asset_type = Image, url = ''blob:1'', thumbnailUrl = None\<rparr>"

definition sample_video :: Asset where
  "sample_video = \<lparr>asset_id = ''a2'', asset_type = Video, url = ''blob:2'', thumbnailUrl = None\<rparr>"

definition sample_content :: GeneratedContent where
  "sample_content =
     \<lparr>audioUrl = Some ''blob:audio'', assets = [sample_image], aspectRatio = Landscape_16_9\<rparr>"

definition sample_browser :: "rat \<Rightarrow> rat list \<Rightarrow> RecorderEvent list \<Rightarrow> Browser" where
  "sample_browser audio readings events =
     \<lparr>decode_image = (\<lambda>u. Some (1024, 768)),
      decode_video = (\<lambda>u. Some (1280, 720, Some 8)),
      context2d = True,
      decode_audio = (\<lambda>u. Some audio),
      clock = readings,
      recorder_events = events\<rparr>"

section \<open>Properties\<close>

subsection \<open>Sequences of abutting items\<close>

lemma seq_from_append:
  "seq_from a (xs @ ys) c \<longleftrightarrow> (\<exists>b. seq_from a xs b \<and> seq_from b ys c)"
  by (induction xs arbitrary: a) auto

lemma seq_from_mono: "seq_from a items c \<Longrightarrow> a \<le> c"
  by (induction items arbitrary: a) fastforce+

lemma seq_from_hd: "seq_from a items c \<Longrightarrow> items \<noteq> [] \<Longrightarrow> start (hd items) = a"
  by (cases items) auto

lemma seq_from_last: "seq_from a items c \<Longrightarrow> items \<noteq> [] \<Longrightarrow> endT (last items) = c"
  by (induction items arbitrary: a) (auto split: if_splits)

lemma seq_from_nth:
  "seq_from a items c \<Longrightarrow> i < length items \<Longrightarrow>
     a \<le> start (items ! i) \<and> start (items ! i) < endT (items ! i) \<and> endT (items ! i) \<le> c
     \<and> 0 < duration (items ! i) \<and> endT (items ! i) = start (items ! i) + duration (items ! i)"
proof (induction items arbitrary: a i)
  case Nil
  then show ?case by simp
next
  case (Cons s ss)
  show ?case
  proof (cases i)
    case 0
    with Cons.prems seq_from_mono [of "endT s" ss c] show ?thesis by auto
  next
    case (Suc k)
    with Cons.prems have "seq_from (endT s) ss c" "k < length ss" by auto
    from Cons.IH [OF this] Cons.prems Suc show ?thesis by auto
  qed
qed

lemma seq_from_Suc:
  "seq_from a items c \<Longrightarrow> Suc i < length items \<Longrightarrow> endT (items ! i) = start (items ! Suc i)"
proof (induction items arbitrary: a i)
  case Nil
  then show ?case by simp
next
  case (Cons s ss)
  show ?case
  proof (cases i)
    case 0
    with Cons.prems show ?thesis by (cases ss) auto
  next
    case (Suc k)
    with Cons.prems have "seq_from (endT s) ss c" "Suc k < length ss" by auto
    from Cons.IH [OF this] Suc show ?thesis by simp
  qed
qed

lemma seq_from_ordered:
  "seq_from a items c \<Longrightarrow> i < j \<Longrightarrow> j < length items \<Longrightarrow> endT (items ! i) \<le> start (items ! j)"
proof (induction items arbitrary: a i j)
  case Nil
  then show ?case by simp
next
  case (Cons s ss)
  from Cons.prems obtain j' where j: "j = Suc j'" "j' < length ss" by (cases j) auto
  from Cons.prems(1) have tail: "seq_from (endT s) ss c" unfolding seq_from.simps by blast
  show ?case
  proof (cases i)
    case 0
    with seq_from_nth [OF tail j(2)] j show ?thesis by simp
  next
    case (Suc k)
    with Cons.prems j have "k < j'" by simp
    from Cons.IH [OF tail this j(2)] Suc j show ?thesis by simp
  qed
qed

lemma seq_from_find:
  "seq_from a items c \<Longrightarrow> a \<le> t \<Longrightarrow> t < c \<Longrightarrow>
     \<exists>i<length items. List.find (\<lambda>s. t \<ge> start s \<and> t < endT s) items = Some (items ! i)
        \<and> start (items ! i) \<le> t \<and> t < endT (items ! i)"
proof (induction items arbitrary: a)
  case Nil
  then show ?case by simp
next
  case (Cons s ss)
  show ?case
  proof (cases "t < endT s")
    case True
    with Cons.prems show ?thesis by (intro exI [of _ 0]) simp
  next
    case False
    with Cons.prems have "seq_from (endT s) ss c" "endT s \<le> t" by auto
    from Cons.IH [OF this Cons.prems(3)] obtain i where
      "i < length ss" "List.find (\<lambda>s. t \<ge> start s \<and> t < endT s) ss = Some (ss ! i)"
      "start (ss ! i) \<le> t" "t < endT (ss ! i)" by blast
    with False show ?thesis by (intro exI [of _ "Suc i"]) simp
  qed
qed

lemma seq_from_unique:
  assumes "seq_from a items c" "i < length items" "j < length items"
    "start (items ! i) \<le> t" "t < endT (items ! i)" "start (items ! j) \<le> t" "t < endT (items ! j)"
  shows "i = j"
proof (rule ccontr)
  assume "i \<noteq> j"
  then consider "i < j" | "j < i" by linarith
  then show False
  proof cases
    case 1
    from seq_from_ordered [OF assms(1) 1 assms(3)] assms show False by simp
  next
    case 2
    from seq_from_ordered [OF assms(1) 2 assms(2)] assms show False by simp
  qed
qed

subsection \<open>The timeline loop returns\<close>

lemma or_default_pos:
  "(case x of None \<Rightarrow> True | Some d \<Rightarrow> 0 \<le> d) \<Longrightarrow> 0 < or_default x 5"
  by (auto simp: or_default_def split: option.splits)

lemma min_duration_pos: "durations_ok els \<Longrightarrow> 0 < min_duration els"
  by (induction els) (auto simp: durations_ok_def min_duration_def or_default_pos)

lemma min_duration_le_5: "min_duration els \<le> 5"
  by (induction els) (auto simp: min_duration_def min.coboundedI2)

lemma min_duration_le: "e \<in> set els \<Longrightarrow> min_duration els \<le> or_default (duration_of e) 5"
  by (induction els) (auto simp: min_duration_def min.coboundedI2)

lemma step_duration_ge:
  assumes "loadedAssets \<noteq> []"
  shows "min_duration loadedAssets \<le>
    (if asset_type a = Video
     then or_default (duration_of (loadedAssets ! (i mod length loadedAssets))) 5 else 5)"
proof -
  have "loadedAssets ! (i mod length loadedAssets) \<in> set loadedAssets"
    using assms by simp
  then show ?thesis
    using min_duration_le min_duration_le_5 by auto
qed

lemma loop_bounded:
  assumes ne: "assetList \<noteq> []" "loadedAssets \<noteq> []" and ok: "durations_ok loadedAssets"
  shows "nat \<lceil>(totalDuration - cursor) / min_duration loadedAssets\<rceil> \<le> n \<Longrightarrow>
    \<exists>items c. timeline_loop assetList loadedAssets totalDuration cursor idx acc = Some (Inr (acc @ items))
       \<and> seq_from cursor items c \<and> totalDuration \<le> c
       \<and> (cursor < totalDuration \<longrightarrow> items \<noteq> [] \<and> start (last items) < totalDuration)
       \<and> (\<forall>s\<in>set items. element s \<noteq> None)"
proof (induction n arbitrary: cursor idx acc)
  case 0
  have pos: "0 < min_duration loadedAssets" using ok by (rule min_duration_pos)
  from 0 have "\<lceil>(totalDuration - cursor) / min_duration loadedAssets\<rceil> \<le> 0" by simp
  then have "(totalDuration - cursor) / min_duration loadedAssets \<le> 0"
    by (simp add: ceiling_le_iff)
  with pos have "totalDuration \<le> cursor"
    by (simp add: divide_le_0_iff)
  then show ?case
    by (subst timeline_loop.simps) simp
next
  case (Suc n)
  have pos: "0 < min_duration loadedAssets" using ok by (rule min_duration_pos)
  show ?case
  proof (cases "cursor < totalDuration")
    case False
    then show ?thesis by (subst timeline_loop.simps) simp
  next
    case True
    define asset where "asset = assetList ! (idx mod length assetList)"
    define el where "el = loadedAssets ! (idx mod length loadedAssets)"
    define d where "d = (if asset_type asset = Video then or_default (duration_of el) 5 else 5)"
    define item where "item = \<lparr>assetIndex = idx, start = cursor, endT = cursor + d,
        item_type = asset_type asset, element = Some el, duration = d\<rparr>"
    have dge: "min_duration loadedAssets \<le> d"
      unfolding d_def el_def using step_duration_ge [OF ne(2)] .
    with pos have dpos: "0 < d" by simp
    have unfold: "timeline_loop assetList loadedAssets totalDuration cursor idx acc =
        timeline_loop assetList loadedAssets totalDuration (cursor + d) (Suc idx) (acc @ [item])"
      by (subst timeline_loop.simps) (simp add: True ne Let_def asset_def el_def d_def item_def)
    have "(totalDuration - (cursor + d)) / min_duration loadedAssets
        \<le> (totalDuration - cursor) / min_duration loadedAssets - 1"
      using pos dge by (simp add: field_simps)
    then have "\<lceil>(totalDuration - (cursor + d)) / min_duration loadedAssets\<rceil>
        \<le> \<lceil>(totalDuration - cursor) / min_duration loadedAssets\<rceil> - 1"
      by (metis ceiling_diff_one ceiling_mono)
    with Suc.prems have "nat \<lceil>(totalDuration - (cursor + d)) / min_duration loadedAssets\<rceil> \<le> n"
      by linarith
    from Suc.IH [OF this, of "Suc idx" "acc @ [item]"]
    obtain items c where
      run: "timeline_loop assetList loadedAssets totalDuration (cursor + d) (Suc idx) (acc @ [item])
              = Some (Inr ((acc @ [item]) @ items))"
      and sq: "seq_from (cursor + d) items c" and le: "totalDuration \<le> c"
      and last: "cursor + d < totalDuration \<longrightarrow> items \<noteq> [] \<and> start (last items) < totalDuration"
      and els: "\<forall>s\<in>set items. element s \<noteq> None"
      by blast
    have "seq_from cursor (item # items) c"
      using sq dpos by (simp add: item_def)
    moreover have "start (last (item # items)) < totalDuration"
    proof (cases "cursor + d < totalDuration")
      case True
      with last show ?thesis by simp
    next
      case False
      show ?thesis
      proof (cases items)
        case Nil
        then show ?thesis using \<open>cursor < totalDuration\<close> by (simp add: item_def)
      next
        case (Cons x xs)
        from False have "timeline_loop assetList loadedAssets totalDuration (cursor + d) (Suc idx) (acc @ [item])
              = Some (Inr (acc @ [item]))"
          by (subst timeline_loop.simps) simp
        with run Cons show ?thesis by simp
      qed
    qed
    moreover have "\<forall>s\<in>set (item # items). element s \<noteq> None"
      using els by (simp add: item_def)
    ultimately show ?thesis
      using unfold run le by (intro exI [of _ "item # items"] exI [of _ c]) (simp del: seq_from.simps)
  qed
qed

lemma build_timeline_returns:
  assumes "assetList \<noteq> []" "loadedAssets \<noteq> []" "durations_ok loadedAssets"
  shows "\<exists>timeline c. build_timeline assetList loadedAssets totalDuration = Some (Inr timeline)
     \<and> seq_from 0 timeline c \<and> totalDuration \<le> c
     \<and> (0 < totalDuration \<longrightarrow> timeline \<noteq> [] \<and> start (last timeline) < totalDuration)
     \<and> (\<forall>s\<in>set timeline. element s \<noteq> None)"
  using loop_bounded [OF assms le_refl, of totalDuration 0 0 "[]"]
  unfolding build_timeline_def by simp

text \<open>
  In \<^verbatim>\<open>renderVideoBlob\<close> the decoded handles come from \<open>loadAll\<close>, one for each asset.
\<close>

lemma loadAll_length: "loadAll b as = Inr els \<Longrightarrow> length els = length as"
  by (induction as arbitrary: els) (auto split: sum.splits)

subsection \<open>The built timeline\<close>

text \<open>
  Claim C1. For a non-empty asset list (with its decoded handles, one for each asset, whose
  durations are not negative) and a total duration above zero, the timeline loop returns a
  non-empty timeline: the first item starts at 0, each item starts where the one before
  ends, every span is non-empty, the spans do not overlap, the last item ends at or after
  the total duration, and every time in \<open>[0, totalDuration)\<close> lies in the span of an item.
\<close>

theorem timeline_contiguous_cover:
  assumes "assetList \<noteq> []" and "length loadedAssets = length assetList"
    and "durations_ok loadedAssets" and "0 < totalDuration"
  shows "\<exists>timeline.
     build_timeline assetList loadedAssets totalDuration = Some (Inr timeline)
     \<and> timeline \<noteq> []
     \<and> start (hd timeline) = 0
     \<and> totalDuration \<le> endT (last timeline)
     \<and> (\<forall>i. Suc i < length timeline \<longrightarrow> endT (timeline ! i) = start (timeline ! Suc i))
     \<and> (\<forall>i<length timeline. start (timeline ! i) < endT (timeline ! i))
     \<and> (\<forall>i j. i < j \<and> j < length timeline \<longrightarrow> endT (timeline ! i) \<le> start (timeline ! j))
     \<and> (\<forall>t. 0 \<le> t \<and> t < totalDuration \<longrightarrow>
           (\<exists>i<length timeline. start (timeline ! i) \<le> t \<and> t < endT (timeline ! i)))"
proof -
  from assms(1,2) have ne: "loadedAssets \<noteq> []" by auto
  from build_timeline_returns [OF assms(1) ne assms(3), of totalDuration] assms(4)
  obtain timeline c where
    run: "build_timeline assetList loadedAssets totalDuration = Some (Inr timeline)"
    and sq: "seq_from 0 timeline c" and le: "totalDuration \<le> c" and nonempty: "timeline \<noteq> []"
    by blast
  have cover: "\<exists>i<length timeline. start (timeline ! i) \<le> t \<and> t < endT (timeline ! i)"
    if "0 \<le> t" "t < totalDuration" for t
  proof -
    from that le have "t < c" by simp
    from seq_from_find [OF sq that(1) this] show ?thesis by blast
  qed
  show ?thesis
  proof (intro exI [of _ timeline] conjI allI impI)
    show "build_timeline assetList loadedAssets totalDuration = Some (Inr timeline)" by (rule run)
    show "timeline \<noteq> []" by (rule nonempty)
    show "start (hd timeline) = 0" using seq_from_hd [OF sq nonempty] .
    show "totalDuration \<le> endT (last timeline)" using seq_from_last [OF sq nonempty] le by simp
    show "endT (timeline ! i) = start (timeline ! Suc i)" if "Suc i < length timeline" for i
      using seq_from_Suc [OF sq that] .
    show "start (timeline ! i) < endT (timeline ! i)" if "i < length timeline" for i
      using seq_from_nth [OF sq that] by simp
    show "endT (timeline ! i) \<le> start (timeline ! j)" if "i < j \<and> j < length timeline" for i j
      using seq_from_ordered [OF sq] that by blast
    show "\<exists>i<length timeline. start (timeline ! i) \<le> t \<and> t < endT (timeline ! i)"
      if "0 \<le> t \<and> t < totalDuration" for t
      using cover that by blast
  qed
qed

theorem timeline_contiguous_cover_witness:
  "[\<lparr>asset_id = ''a1'', asset_type = Image, url = ''blob:1'', thumbnailUrl = None\<rparr>,
    \<lparr>asset_id = ''a2'', asset_type = Video, url = ''blob:2'', thumbnailUrl = None\<rparr>] \<noteq> []
   \<and> durations_ok [HTMLImageElement 1024 768, HTMLVideoElement 1280 720 (Some 8)]
   \<and> (0::rat) < 20
   \<and> (\<exists>timeline.
     build_timeline
       [\<lparr>asset_id = ''a1'', asset_type = Image, url = ''blob:1'', thumbnailUrl = None\<rparr>,
        \<lparr>asset_id = ''a2'', asset_type = Video, url = ''blob:2'', thumbnailUrl = None\<rparr>]
       [HTMLImageElement 1024 768, HTMLVideoElement 1280 720 (Some 8)] 20 = Some (Inr timeline)
     \<and> timeline \<noteq> []
     \<and> start (hd timeline) = 0
     \<and> 20 \<le> endT (last timeline)
     \<and> (\<forall>i. Suc i < length timeline \<longrightarrow> endT (timeline ! i) = start (timeline ! Suc i))
     \<and> (\<forall>i<length timeline. start (timeline ! i) < endT (timeline ! i))
     \<and> (\<forall>i j. i < j \<and> j < length timeline \<longrightarrow> endT (timeline ! i) \<le> start (timeline ! j))
     \<and> (\<forall>t. 0 \<le> t \<and> t < 20 \<longrightarrow>
           (\<exists>i<length timeline. start (timeline ! i) \<le> t \<and> t < endT (timeline ! i))))"
  using timeline_contiguous_cover [of
     "[\<lparr>asset_id = ''a1'', asset_type = Image, url = ''blob:1'', thumbnailUrl = None\<rparr>,
       \<lparr>asset_id = ''a2'', asset_type = Video, url = ''blob:2'', thumbnailUrl = None\<rparr>]"
     "[HTMLImageElement 1024 768, HTMLVideoElement 1280 720 (Some 8)]" 20]
  by (simp add: durations_ok_def)

text \<open>
  Claim C2. For an elapsed time \<open>t\<close> with \<open>0 \<le> t < totalDuration\<close>, exactly one item of the
  built timeline has \<open>start \<le> t < end\<close>, and the lookup of the render loop returns that
  item. When \<open>t\<close> is the end of an item that has a successor, the item found is the
  successor: the later item owns the boundary.
\<close>

theorem active_item_unique:
  assumes "assetList \<noteq> []" and "length loadedAssets = length assetList"
    and "durations_ok loadedAssets" and "0 \<le> t" and "t < totalDuration"
  shows "\<exists>timeline i.
     build_timeline assetList loadedAssets totalDuration = Some (Inr timeline)
     \<and> i < length timeline
     \<and> start (timeline ! i) \<le> t \<and> t < endT (timeline ! i)
     \<and> (\<forall>j<length timeline. start (timeline ! j) \<le> t \<and> t < endT (timeline ! j) \<longrightarrow> j = i)
     \<and> activeItem timeline t = Some (timeline ! i)
     \<and> (\<forall>k. Suc k < length timeline \<and> endT (timeline ! k) = t \<longrightarrow> i = Suc k)"
proof -
  from assms(1,2) have ne: "loadedAssets \<noteq> []" by auto
  from build_timeline_returns [OF assms(1) ne assms(3), of totalDuration]
  obtain timeline c where
    run: "build_timeline assetList loadedAssets totalDuration = Some (Inr timeline)"
    and sq: "seq_from 0 timeline c" and le: "totalDuration \<le> c"
    by blast
  from assms(5) le have "t < c" by simp
  from seq_from_find [OF sq assms(4) this] obtain i where
    i: "i < length timeline"
    and found: "List.find (\<lambda>s. t \<ge> start s \<and> t < endT s) timeline = Some (timeline ! i)"
    and inside: "start (timeline ! i) \<le> t" "t < endT (timeline ! i)"
    by blast
  have uniq: "j = i"
    if "j < length timeline" "start (timeline ! j) \<le> t \<and> t < endT (timeline ! j)" for j
    using seq_from_unique [OF sq that(1) i] that(2) inside by blast
  have boundary: "i = Suc k" if "Suc k < length timeline \<and> endT (timeline ! k) = t" for k
  proof -
    from that have k: "Suc k < length timeline" and "endT (timeline ! k) = t" by auto
    with seq_from_Suc [OF sq k] have "start (timeline ! Suc k) = t" by simp
    moreover from seq_from_nth [OF sq k] have "start (timeline ! Suc k) < endT (timeline ! Suc k)"
      by simp
    ultimately have "start (timeline ! Suc k) \<le> t \<and> t < endT (timeline ! Suc k)" by simp
    from uniq [OF k this] show ?thesis by simp
  qed
  have "activeItem timeline t = Some (timeline ! i)"
    by (simp add: activeItem_def found)
  with run i inside uniq boundary show ?thesis by blast
qed

theorem active_item_unique_witness:
  "durations_ok [HTMLImageElement 1024 768, HTMLVideoElement 1280 720 (Some 8)]
   \<and> (0::rat) \<le> 5 \<and> (5::rat) < 20
   \<and> (\<exists>timeline i.
     build_timeline
       [\<lparr>asset_id = ''a1'', asset_type = Image, url = ''blob:1'', thumbnailUrl = None\<rparr>,
       \<lparr>asset_id = ''a2'', asset_type = Video, url = ''blob:2'', thumbnailUrl = None\<rparr>]
       [HTMLImageElement 1024 768, HTMLVideoElement 1280 720 (Some 8)] 20 = Some (Inr timeline)
     \<and> i < length timeline
     \<and> start (timeline ! i) \<le> 5 \<and> 5 < endT (timeline ! i)
     \<and> (\<forall>j<length timeline. start (timeline ! j) \<le> 5 \<and> 5 < endT (timeline ! j) \<longrightarrow> j = i)
     \<and> activeItem timeline 5 = Some (timeline ! i)
     \<and> (\<forall>k. Suc k < length timeline \<and> endT (timeline ! k) = 5 \<longrightarrow> i = Suc k))"
  using active_item_unique [of
     "[\<lparr>asset_id = ''a1'', asset_type = Image, url = ''blob:1'', thumbnailUrl = None\<rparr>,
       \<lparr>asset_id = ''a2'', asset_type = Video, url = ''blob:2'', thumbnailUrl = None\<rparr>]"
     "[HTMLImageElement 1024 768, HTMLVideoElement 1280 720 (Some 8)]" 5 20]
  by (simp add: durations_ok_def)

subsection \<open>Concrete timelines\<close>

text \<open>
  A single image and twelve seconds of audio: the spans of the built timeline are not
  \<open>[0,5), [5,10), [10,12)\<close>.
\<close>

theorem single_image_12_not_truncated:
  "timeline_spans [sample_image] [HTMLImageElement 1024 768] 12 \<noteq> Some [(0, 5), (5, 10), (10, 12)]"
  by (simp add: timeline_spans_def spans_def build_timeline_def timeline_loop.simps sample_image_def)

text \<open>
  Claim C3, as amended. For a single image asset (5 seconds by default) and
  \<open>totalDuration = 12\<close> the loop builds exactly three items \<open>[0,5)\<close>, \<open>[5,10)\<close>, \<open>[10,15)\<close>,
  repeated occurrences of the same image. The last item is not truncated: it keeps its
  5 seconds and ends 3 seconds after the total duration.
\<close>

theorem single_image_12:
  assumes "asset_type a = Image"
  shows "build_timeline [a] [e] 12 = Some (Inr
    [\<lparr>assetIndex = 0, start = 0, endT = 5, item_type = Image, element = Some e, duration = 5\<rparr>,
     \<lparr>assetIndex = 1, start = 5, endT = 10, item_type = Image, element = Some e, duration = 5\<rparr>,
     \<lparr>assetIndex = 2, start = 10, endT = 15, item_type = Image, element = Some e, duration = 5\<rparr>])"
  using assms by (simp add: build_timeline_def timeline_loop.simps)

theorem single_image_12_witness:
  "asset_type sample_image = Image \<and>
   build_timeline [sample_image] [HTMLImageElement 1024 768] 12 = Some (Inr
    [\<lparr>assetIndex = 0, start = 0, endT = 5, item_type = Image,
       element = Some (HTMLImageElement 1024 768), duration = 5\<rparr>,
     \<lparr>assetIndex = 1, start = 5, endT = 10, item_type = Image,
       element = Some (HTMLImageElement 1024 768), duration = 5\<rparr>,
     \<lparr>assetIndex = 2, start = 10, endT = 15, item_type = Image,
       element = Some (HTMLImageElement 1024 768), duration = 5\<rparr>])"
  using single_image_12 [of sample_image "HTMLImageElement 1024 768"]
  by (simp add: sample_image_def)

text \<open>
  Claim C9. For 10 seconds of audio, a single image (5 seconds by default) gives exactly
  two items of 5 seconds each; a single video whose decoded handle reports 12 seconds
  gives exactly one item, \<open>[0,12)\<close>, which spans the whole audio; and a video whose
  duration is unknown falls back to the default of 5 seconds.
\<close>

theorem ten_seconds_round_trip:
  assumes "asset_type a = Image" and "asset_type v = Video"
  shows "build_timeline [a] [e] 10 = Some (Inr
      [\<lparr>assetIndex = 0, start = 0, endT = 5, item_type = Image, element = Some e, duration = 5\<rparr>,
       \<lparr>assetIndex = 1, start = 5, endT = 10, item_type = Image, element = Some e, duration = 5\<rparr>])
    \<and> build_timeline [v] [HTMLVideoElement w h (Some 12)] 10 = Some (Inr
      [\<lparr>assetIndex = 0, start = 0, endT = 12, item_type = Video,
         element = Some (HTMLVideoElement w h (Some 12)), duration = 12\<rparr>])
    \<and> build_timeline [v] [HTMLVideoElement w h None] 10 = Some (Inr
      [\<lparr>assetIndex = 0, start = 0, endT = 5, item_type = Video,
         element = Some (HTMLVideoElement w h None), duration = 5\<rparr>,
       \<lparr>assetIndex = 1, start = 5, endT = 10, item_type = Video,
         element = Some (HTMLVideoElement w h None), duration = 5\<rparr>])"
  using assms by (simp add: build_timeline_def timeline_loop.simps or_default_def Let_def)

theorem ten_seconds_round_trip_witness:
  "asset_type sample_image = Image \<and> asset_type sample_video = Video
    \<and> build_timeline [sample_image] [HTMLImageElement 1024 768] 10 = Some (Inr
      [\<lparr>assetIndex = 0, start = 0, endT = 5, item_type = Image,
         element = Some (HTMLImageElement 1024 768), duration = 5\<rparr>,
       \<lparr>assetIndex = 1, start = 5, endT = 10, item_type = Image,
         element = Some (HTMLImageElement 1024 768), duration = 5\<rparr>])
    \<and> build_timeline [sample_video] [HTMLVideoElement 1280 720 (Some 12)] 10 = Some (Inr
      [\<lparr>assetIndex = 0, start = 0, endT = 12, item_type = Video,
         element = Some (HTMLVideoElement 1280 720 (Some 12)), duration = 12\<rparr>])
    \<and> build_timeline [sample_video] [HTMLVideoElement 1280 720 None] 10 = Some (Inr
      [\<lparr>assetIndex = 0, start = 0, endT = 5, item_type = Video,
         element = Some (HTMLVideoElement 1280 720 None), duration = 5\<rparr>,
       \<lparr>assetIndex = 1, start = 5, endT = 10, item_type = Video,
         element = Some (HTMLVideoElement 1280 720 None), duration = 5\<rparr>])"
  using ten_seconds_round_trip [of sample_image sample_video "HTMLImageElement 1024 768" 1280 720]
  by (simp add: sample_image_def sample_video_def)

subsection \<open>Drawing a frame\<close>

lemma js_rem_nonneg:
  assumes "0 \<le> x" and "0 < d"
  shows "\<exists>off. js_rem x d = Some off \<and> 0 \<le> off \<and> off < d
     \<and> x = of_int \<lfloor>x / d\<rfloor> * d + off \<and> 0 \<le> \<lfloor>x / d\<rfloor>"
proof -
  define k where "k = \<lfloor>x / d\<rfloor>"
  define off where "off = x - d * of_int k"
  from assms have q: "0 \<le> x / d" by simp
  then have rem: "js_rem x d = Some off"
    using assms by (simp add: js_rem_def js_trunc_def off_def k_def)
  have "of_int k \<le> x / d" unfolding k_def by (rule of_int_floor_le)
  with assms(2) have "of_int k * d \<le> x" by (simp add: pos_le_divide_eq)
  then have lo: "0 \<le> off" by (simp add: off_def mult.commute)
  have "x / d < of_int k + 1" unfolding k_def using floor_correct [of "x / d"] by simp
  with assms(2) have "x < (of_int k + 1) * d" by (simp add: pos_divide_less_eq)
  then have hi: "off < d" by (simp add: off_def algebra_simps)
  have "x = of_int k * d + off" by (simp add: off_def)
  moreover from q have "0 \<le> k" unfolding k_def by simp
  ultimately show ?thesis using rem lo hi unfolding k_def by blast
qed

lemma drawImageContain_sample:
  "\<exists>fx. drawImageContain (Some e) cw ch = Inr fx
     \<and> (if naturalWidth e = 0 \<or> naturalHeight e = 0 then fx = []
         else (\<exists>ox oy rw rh. fx = [DrawImage e ox oy rw rh]))"
proof (cases "naturalWidth e = 0 \<or> naturalHeight e = 0")
  case True
  then have "drawImageContain (Some e) cw ch = Inr []"
    by (simp add: drawImageContain_def naturalWidth_def naturalHeight_def)
  with True show ?thesis by simp
next
  case False
  define asp where "asp = rat_of_nat (naturalWidth e) / rat_of_nat (naturalHeight e)"
  show ?thesis
  proof (cases "wider_than_canvas asp cw ch")
    case True
    with False have "drawImageContain (Some e) cw ch =
        Inr [DrawImage e 0 ((ch - cw / asp) / 2) cw (cw / asp)]"
      by (simp add: drawImageContain_def naturalWidth_def naturalHeight_def asp_def Let_def)
    then obtain ox oy rw rh where
      "drawImageContain (Some e) cw ch = Inr [DrawImage e ox oy rw rh]" by blast
    with False show ?thesis by simp
  next
    case notwide: False
    with False have "drawImageContain (Some e) cw ch =
        Inr [DrawImage e ((cw - ch * asp) / 2) 0 (ch * asp) ch]"
      by (simp add: drawImageContain_def naturalWidth_def naturalHeight_def asp_def Let_def)
    then obtain ox oy rw rh where
      "drawImageContain (Some e) cw ch = Inr [DrawImage e ox oy rw rh]" by blast
    with False show ?thesis by simp
  qed
qed

lemma drawFrame_video:
  assumes "item_type item = Video" and "element item = Some vid"
    and "start item \<le> t" and "0 < duration item"
  shows "\<exists>off fx. js_rem (t - start item) (duration item) = Some off
         \<and> 0 \<le> off \<and> off < duration item
         \<and> (\<exists>k::int. 0 \<le> k \<and> t - start item = of_int k * duration item + off)
         \<and> drawImageContain (Some vid) cw ch = Inr fx
         \<and> (if naturalWidth vid = 0 \<or> naturalHeight vid = 0 then fx = []
             else (\<exists>ox oy rw rh. fx = [DrawImage vid ox oy rw rh]))
         \<and> drawFrame cw ch item t =
             (FillRect ''#000000'' 0 0 cw ch # SetCurrentTime vid (Some off) # fx, None)"
proof -
  from assms have "0 \<le> t - start item" "0 < duration item" by simp_all
  from js_rem_nonneg [OF this] obtain off where
    off: "js_rem (t - start item) (duration item) = Some off" "0 \<le> off" "off < duration item"
      "\<exists>k::int. 0 \<le> k \<and> t - start item = of_int k * duration item + off"
    by blast
  from drawImageContain_sample [of vid cw ch] obtain fx where
    fx: "drawImageContain (Some vid) cw ch = Inr fx"
      "if naturalWidth vid = 0 \<or> naturalHeight vid = 0 then fx = []
       else (\<exists>ox oy rw rh. fx = [DrawImage vid ox oy rw rh])"
    by blast
  have "drawFrame cw ch item t =
      (FillRect ''#000000'' 0 0 cw ch # SetCurrentTime vid (Some off) # fx, None)"
    using assms(1,2) off(1) fx(1) by (simp add: drawFrame_def)
  with off fx show ?thesis by blast
qed

lemma drawFrame_image:
  assumes "item_type item = Image" and "element item = Some img"
  shows "\<exists>fx. drawImageContain (Some img) cw ch = Inr fx
         \<and> (if naturalWidth img = 0 \<or> naturalHeight img = 0 then fx = []
             else (\<exists>ox oy rw rh. fx = [DrawImage img ox oy rw rh]))
         \<and> drawFrame cw ch item t = (FillRect ''#000000'' 0 0 cw ch # fx, None)"
proof -
  from drawImageContain_sample [of img cw ch] obtain fx where
    fx: "drawImageContain (Some img) cw ch = Inr fx"
      "if naturalWidth img = 0 \<or> naturalHeight img = 0 then fx = []
       else (\<exists>ox oy rw rh. fx = [DrawImage img ox oy rw rh])"
    by blast
  have "drawFrame cw ch item t = (FillRect ''#000000'' 0 0 cw ch # fx, None)"
    using assms fx(1) by (simp add: drawFrame_def)
  with fx show ?thesis by blast
qed

lemma active_item_is:
  assumes sq: "seq_from 0 timeline c" and "item \<in> set timeline"
    and "start item \<le> t" and "t < endT item" and "t < c"
  shows "activeItem timeline t = Some item"
proof -
  from assms(2) obtain i where i: "i < length timeline" "timeline ! i = item"
    by (auto simp: in_set_conv_nth)
  from seq_from_nth [OF sq i(1)] i(2) assms(3) have "0 \<le> t" by simp
  from seq_from_find [OF sq this assms(5)] obtain j where
    j: "j < length timeline"
    and found: "List.find (\<lambda>s. t \<ge> start s \<and> t < endT s) timeline = Some (timeline ! j)"
    and inside: "start (timeline ! j) \<le> t" "t < endT (timeline ! j)"
    by blast
  from seq_from_unique [OF sq j i(1) inside] i(2) assms(3,4) have "j = i" by simp
  with found i(2) show ?thesis by (simp add: activeItem_def)
qed

text \<open>
  Claim C4. For an item of the built timeline and an elapsed time \<open>t\<close> inside its span: if
  the item is a video, the frame is drawn by clearing the canvas, assigning
  \<open>(t - start) % duration\<close> to the \<^verbatim>\<open>currentTime\<close> of its element and only then
  sampling the element with \<^verbatim>\<open>drawImageContain\<close>, which issues exactly one
  \<^verbatim>\<open>drawImage\<close> of that element when its natural width and height are positive (and
  none when one of them is zero); the offset assigned is the remainder of \<open>t - start\<close>
  modulo the duration (it lies in \<open>[0, duration)\<close> and differs from \<open>t - start\<close> by a whole
  number of durations). If the item is an image, the canvas is cleared and the image
  sampled in the same way, with no seek. While \<open>t\<close> is below the total duration, the item
  is the one the lookup of the render loop returns, and the call of \<^verbatim>\<open>renderLoop\<close> at
  \<open>t\<close> performs exactly these effects and asks for the next frame.
\<close>

theorem video_seek_offset:
  assumes "assetList \<noteq> []" and "length loadedAssets = length assetList"
    and "durations_ok loadedAssets"
    and "build_timeline assetList loadedAssets totalDuration = Some (Inr timeline)"
    and "item \<in> set timeline" and "start item \<le> t" and "t < endT item"
  shows "(item_type item = Video \<longrightarrow>
      (\<exists>vid off fx. element item = Some vid
         \<and> js_rem (t - start item) (duration item) = Some off
         \<and> 0 \<le> off \<and> off < duration item
         \<and> (\<exists>k::int. 0 \<le> k \<and> t - start item = of_int k * duration item + off)
         \<and> drawImageContain (Some vid) cw ch = Inr fx
         \<and> (if naturalWidth vid = 0 \<or> naturalHeight vid = 0 then fx = []
             else (\<exists>ox oy rw rh. fx = [DrawImage vid ox oy rw rh]))
         \<and> drawFrame cw ch item t =
             (FillRect ''#000000'' 0 0 cw ch # SetCurrentTime vid (Some off) # fx, None)))
   \<and> (item_type item = Image \<longrightarrow>
      (\<exists>img fx. element item = Some img
         \<and> drawImageContain (Some img) cw ch = Inr fx
         \<and> (if naturalWidth img = 0 \<or> naturalHeight img = 0 then fx = []
             else (\<exists>ox oy rw rh. fx = [DrawImage img ox oy rw rh]))
         \<and> drawFrame cw ch item t = (FillRect ''#000000'' 0 0 cw ch # fx, None)))
   \<and> (t < totalDuration \<longrightarrow>
         activeItem timeline t = Some item
         \<and> renderLoop timeline totalDuration cw ch t = (fst (drawFrame cw ch item t), Next))"
proof -
  from assms(1,2) have ne: "loadedAssets \<noteq> []" by auto
  from build_timeline_returns [OF assms(1) ne assms(3), of totalDuration] assms(4)
  obtain c where sq: "seq_from 0 timeline c" and le: "totalDuration \<le> c"
    and els: "\<forall>s\<in>set timeline. element s \<noteq> None"
    by auto
  from assms(5) obtain i where i: "i < length timeline" "timeline ! i = item"
    by (auto simp: in_set_conv_nth)
  from seq_from_nth [OF sq i(1)] i(2) have dpos: "0 < duration item" by simp
  from els assms(5) obtain el where el: "element item = Some el" by auto
  have video: "\<exists>vid off fx. element item = Some vid
         \<and> js_rem (t - start item) (duration item) = Some off
         \<and> 0 \<le> off \<and> off < duration item
         \<and> (\<exists>k::int. 0 \<le> k \<and> t - start item = of_int k * duration item + off)
         \<and> drawImageContain (Some vid) cw ch = Inr fx
         \<and> (if naturalWidth vid = 0 \<or> naturalHeight vid = 0 then fx = []
             else (\<exists>ox oy rw rh. fx = [DrawImage vid ox oy rw rh]))
         \<and> drawFrame cw ch item t =
             (FillRect ''#000000'' 0 0 cw ch # SetCurrentTime vid (Some off) # fx, None)"
    if "item_type item = Video"
    using drawFrame_video [OF that el assms(6) dpos, of cw ch] el by blast
  have image: "\<exists>img fx. element item = Some img
         \<and> drawImageContain (Some img) cw ch = Inr fx
         \<and> (if naturalWidth img = 0 \<or> naturalHeight img = 0 then fx = []
             else (\<exists>ox oy rw rh. fx = [DrawImage img ox oy rw rh]))
         \<and> drawFrame cw ch item t = (FillRect ''#000000'' 0 0 cw ch # fx, None)"
    if "item_type item = Image"
    using drawFrame_image [OF that el, of cw ch t] el by blast
  have tick: "activeItem timeline t = Some item
         \<and> renderLoop timeline totalDuration cw ch t = (fst (drawFrame cw ch item t), Next)"
    if "t < totalDuration"
  proof -
    from that le have "t < c" by simp
    from active_item_is [OF sq assms(5,6,7) this]
    have act: "activeItem timeline t = Some item" .
    have "snd (drawFrame cw ch item t) = None"
    proof (cases "item_type item")
      case Image
      from image [OF this] show ?thesis by auto
    next
      case Video
      from video [OF this] show ?thesis by auto
    qed
    then obtain fx where fx: "drawFrame cw ch item t = (fx, None)"
      by (cases "drawFrame cw ch item t") simp
    have "renderLoop timeline totalDuration cw ch t = (fx, Next)"
      using that act by (simp add: renderLoop_def fx)
    with fx have "renderLoop timeline totalDuration cw ch t = (fst (drawFrame cw ch item t), Next)"
      by simp
    with act show ?thesis by simp
  qed
  from video image tick show ?thesis by blast
qed

theorem video_seek_offset_witness:
  "durations_ok [HTMLVideoElement 1280 720 (Some 8)]
   \<and> build_timeline [sample_video] [HTMLVideoElement 1280 720 (Some 8)] 12 = Some (Inr
      [\<lparr>assetIndex = 0, start = 0, endT = 8, item_type = Video,
         element = Some (HTMLVideoElement 1280 720 (Some 8)), duration = 8\<rparr>,
       \<lparr>assetIndex = 1, start = 8, endT = 16, item_type = Video,
         element = Some (HTMLVideoElement 1280 720 (Some 8)), duration = 8\<rparr>])
   \<and> (8::rat) \<le> 11 \<and> (11::rat) < 16 \<and> (11::rat) < 12
   \<and> (\<exists>vid off fx.
         Some (HTMLVideoElement 1280 720 (Some 8)) = Some vid
         \<and> js_rem (11 - 8) 8 = Some off
         \<and> 0 \<le> off \<and> off < 8
         \<and> (\<exists>k::int. 0 \<le> k \<and> (11::rat) - 8 = of_int k * 8 + off)
         \<and> drawImageContain (Some vid) 1920 1080 = Inr fx
         \<and> (if naturalWidth vid = 0 \<or> naturalHeight vid = 0 then fx = []
             else (\<exists>ox oy rw rh. fx = [DrawImage vid ox oy rw rh]))
         \<and> drawFrame 1920 1080
              \<lparr>assetIndex = 1, start = 8, endT = 16, item_type = Video,
         element = Some (HTMLVideoElement 1280 720 (Some 8)), duration = 8\<rparr> 11 =
             (FillRect ''#000000'' 0 0 1920 1080 # SetCurrentTime vid (Some off) # fx, None))
   \<and> activeItem
        [\<lparr>assetIndex = 0, start = 0, endT = 8, item_type = Video,
         element = Some (HTMLVideoElement 1280 720 (Some 8)), duration = 8\<rparr>,
         \<lparr>assetIndex = 1, start = 8, endT = 16, item_type = Video,
         element = Some (HTMLVideoElement 1280 720 (Some 8)), duration = 8\<rparr>] 11 = Some
          \<lparr>assetIndex = 1, start = 8, endT = 16, item_type = Video,
         element = Some (HTMLVideoElement 1280 720 (Some 8)), duration = 8\<rparr>
   \<and> renderLoop
        [\<lparr>assetIndex = 0, start = 0, endT = 8, item_type = Video,
         element = Some (HTMLVideoElement 1280 720 (Some 8)), duration = 8\<rparr>,
         \<lparr>assetIndex = 1, start = 8, endT = 16, item_type = Video,
         element = Some (HTMLVideoElement 1280 720 (Some 8)), duration = 8\<rparr>] 12 1920 1080 11 =
       ([FillRect ''#000000'' 0 0 1920 1080,
         SetCurrentTime (HTMLVideoElement 1280 720 (Some 8)) (Some 3),
         DrawImage (HTMLVideoElement 1280 720 (Some 8)) 0 0 1920 1080], Next)
   \<and> durations_ok [HTMLImageElement 1024 768]
   \<and> build_timeline [sample_image] [HTMLImageElement 1024 768] 10 = Some (Inr
      [\<lparr>assetIndex = 0, start = 0, endT = 5, item_type = Image,
         element = Some (HTMLImageElement 1024 768), duration = 5\<rparr>,
       \<lparr>assetIndex = 1, start = 5, endT = 10, item_type = Image,
         element = Some (HTMLImageElement 1024 768), duration = 5\<rparr>])
   \<and> (\<exists>img fx.
         Some (HTMLImageElement 1024 768) = Some img
         \<and> drawImageContain (Some img) 1920 1080 = Inr fx
         \<and> (if naturalWidth img = 0 \<or> naturalHeight img = 0 then fx = []
             else (\<exists>ox oy rw rh. fx = [DrawImage img ox oy rw rh]))
         \<and> drawFrame 1920 1080
              \<lparr>assetIndex = 1, start = 5, endT = 10, item_type = Image,
         element = Some (HTMLImageElement 1024 768), duration = 5\<rparr> 6 =
             (FillRect ''#000000'' 0 0 1920 1080 # fx, None))
   \<and> renderLoop
        [\<lparr>assetIndex = 0, start = 0, endT = 5, item_type = Image,
         element = Some (HTMLImageElement 1024 768), duration = 5\<rparr>,
         \<lparr>assetIndex = 1, start = 5, endT = 10, item_type = Image,
         element = Some (HTMLImageElement 1024 768), duration = 5\<rparr>] 10 1920 1080 6 =
       ([FillRect ''#000000'' 0 0 1920 1080,
         DrawImage (HTMLImageElement 1024 768) 240 0 1440 1080], Next)"
proof -
  have okv: "durations_ok [HTMLVideoElement 1280 720 (Some 8)]"
    and oki: "durations_ok [HTMLImageElement 1024 768]"
    by (simp_all add: durations_ok_def)
  have builtv: "build_timeline [sample_video] [HTMLVideoElement 1280 720 (Some 8)] 12 = Some (Inr
      [\<lparr>assetIndex = 0, start = 0, endT = 8, item_type = Video,
         element = Some (HTMLVideoElement 1280 720 (Some 8)), duration = 8\<rparr>,
       \<lparr>assetIndex = 1, start = 8, endT = 16, item_type = Video,
         element = Some (HTMLVideoElement 1280 720 (Some 8)), duration = 8\<rparr>])"
    by (simp add: build_timeline_def timeline_loop.simps sample_video_def or_default_def Let_def)
  have builti: "build_timeline [sample_image] [HTMLImageElement 1024 768] 10 = Some (Inr
      [\<lparr>assetIndex = 0, start = 0, endT = 5, item_type = Image,
         element = Some (HTMLImageElement 1024 768), duration = 5\<rparr>,
       \<lparr>assetIndex = 1, start = 5, endT = 10, item_type = Image,
         element = Some (HTMLImageElement 1024 768), duration = 5\<rparr>])"
    by (simp add: build_timeline_def timeline_loop.simps sample_image_def Let_def)
  have framev: "fst (drawFrame 1920 1080
        \<lparr>assetIndex = 1, start = 8, endT = 16, item_type = Video,
         element = Some (HTMLVideoElement 1280 720 (Some 8)), duration = 8\<rparr> 11) =
      [FillRect ''#000000'' 0 0 1920 1080,
       SetCurrentTime (HTMLVideoElement 1280 720 (Some 8)) (Some 3),
       DrawImage (HTMLVideoElement 1280 720 (Some 8)) 0 0 1920 1080]"
    by (simp add: drawFrame_def drawImageContain_def wider_than_canvas_def js_rem_def
        js_trunc_def floor_eq_iff Let_def)
  have framei: "fst (drawFrame 1920 1080
        \<lparr>assetIndex = 1, start = 5, endT = 10, item_type = Image,
         element = Some (HTMLImageElement 1024 768), duration = 5\<rparr> 6) =
      [FillRect ''#000000'' 0 0 1920 1080,
       DrawImage (HTMLImageElement 1024 768) 240 0 1440 1080]"
    by (simp add: drawFrame_def drawImageContain_def wider_than_canvas_def Let_def)
  from video_seek_offset [OF _ _ okv builtv, of
      "\<lparr>assetIndex = 1, start = 8, endT = 16, item_type = Video,
         element = Some (HTMLVideoElement 1280 720 (Some 8)), duration = 8\<rparr>" 11 1920 1080]
  have v: "(\<exists>vid off fx.
         Some (HTMLVideoElement 1280 720 (Some 8)) = Some vid
         \<and> js_rem (11 - 8) 8 = Some off
         \<and> 0 \<le> off \<and> off < 8
         \<and> (\<exists>k::int. 0 \<le> k \<and> (11::rat) - 8 = of_int k * 8 + off)
         \<and> drawImageContain (Some vid) 1920 1080 = Inr fx
         \<and> (if naturalWidth vid = 0 \<or> naturalHeight vid = 0 then fx = []
             else (\<exists>ox oy rw rh. fx = [DrawImage vid ox oy rw rh]))
         \<and> drawFrame 1920 1080
              \<lparr>assetIndex = 1, start = 8, endT = 16, item_type = Video,
         element = Some (HTMLVideoElement 1280 720 (Some 8)), duration = 8\<rparr> 11 =
             (FillRect ''#000000'' 0 0 1920 1080 # SetCurrentTime vid (Some off) # fx, None))
     \<and> activeItem
        [\<lparr>assetIndex = 0, start = 0, endT = 8, item_type = Video,
         element = Some (HTMLVideoElement 1280 720 (Some 8)), duration = 8\<rparr>,
         \<lparr>assetIndex = 1, start = 8, endT = 16, item_type = Video,
         element = Some (HTMLVideoElement 1280 720 (Some 8)), duration = 8\<rparr>] 11 = Some
          \<lparr>assetIndex = 1, start = 8, endT = 16, item_type = Video,
         element = Some (HTMLVideoElement 1280 720 (Some 8)), duration = 8\<rparr>
     \<and> renderLoop
        [\<lparr>assetIndex = 0, start = 0, endT = 8, item_type = Video,
         element = Some (HTMLVideoElement 1280 720 (Some 8)), duration = 8\<rparr>,
         \<lparr>assetIndex = 1, start = 8, endT = 16, item_type = Video,
         element = Some (HTMLVideoElement 1280 720 (Some 8)), duration = 8\<rparr>] 12 1920 1080 11 =
       (fst (drawFrame 1920 1080
          \<lparr>assetIndex = 1, start = 8, endT = 16, item_type = Video,
         element = Some (HTMLVideoElement 1280 720 (Some 8)), duration = 8\<rparr> 11), Next)"
    by simp
  from video_seek_offset [OF _ _ oki builti, of
      "\<lparr>assetIndex = 1, start = 5, endT = 10, item_type = Image,
         element = Some (HTMLImageElement 1024 768), duration = 5\<rparr>" 6 1920 1080]
  have i: "(\<exists>img fx.
         Some (HTMLImageElement 1024 768) = Some img
         \<and> drawImageContain (Some img) 1920 1080 = Inr fx
         \<and> (if naturalWidth img = 0 \<or> naturalHeight img = 0 then fx = []
             else (\<exists>ox oy rw rh. fx = [DrawImage img ox oy rw rh]))
         \<and> drawFrame 1920 1080
              \<lparr>assetIndex = 1, start = 5, endT = 10, item_type = Image,
         element = Some (HTMLImageElement 1024 768), duration = 5\<rparr> 6 =
             (FillRect ''#000000'' 0 0 1920 1080 # fx, None))
     \<and> renderLoop
        [\<lparr>assetIndex = 0, start = 0, endT = 5, item_type = Image,
         element = Some (HTMLImageElement 1024 768), duration = 5\<rparr>,
         \<lparr>assetIndex = 1, start = 5, endT = 10, item_type = Image,
         element = Some (HTMLImageElement 1024 768), duration = 5\<rparr>] 10 1920 1080 6 =
       (fst (drawFrame 1920 1080
          \<lparr>assetIndex = 1, start = 5, endT = 10, item_type = Image,
         element = Some (HTMLImageElement 1024 768), duration = 5\<rparr> 6), Next)"
    by simp
  from v i show ?thesis
    unfolding framev framei using okv oki builtv builti by simp
qed

text \<open>
  In a timeline built by the loop the duration of an item is the length of its span, so
  inside the span the remainder is \<open>t - start\<close> itself: the modulo never wraps.
\<close>

lemma video_offset_within_item:
  assumes "seq_from a timeline c" and "item \<in> set timeline"
    and "start item \<le> t" and "t < endT item"
  shows "js_rem (t - start item) (duration item) = Some (t - start item)"
proof -
  from assms(2) obtain i where i: "i < length timeline" "timeline ! i = item"
    by (auto simp: in_set_conv_nth)
  from seq_from_nth [OF assms(1) i(1)] i(2)
  have d: "0 < duration item" "endT item = start item + duration item" by simp_all
  with assms(3,4) have "0 \<le> (t - start item) / duration item" "(t - start item) / duration item < 1"
    by simp_all
  then have "\<lfloor>(t - start item) / duration item\<rfloor> = 0" by linarith
  with d(1) \<open>0 \<le> (t - start item) / duration item\<close> show ?thesis
    by (simp add: js_rem_def js_trunc_def)
qed

lemma contain_wide:
  fixes w h cw ch :: rat
  assumes "0 < w" "0 < h" "0 < cw" "0 < ch" "w / h > cw / ch"
  shows "cw / (cw / (w / h)) = w / h" "cw / (w / h) \<le> ch" "0 < cw / (w / h)"
proof -
  from assms show "cw / (cw / (w / h)) = w / h" by simp
  from assms have "cw * h < w * ch" by (simp add: field_simps)
  then have "cw * h / w < ch" using assms(1) by (simp add: pos_divide_less_eq mult.commute)
  then show "cw / (w / h) \<le> ch" by simp
  from assms show "0 < cw / (w / h)" by simp
qed

lemma contain_tall:
  fixes w h cw ch :: rat
  assumes "0 < w" "0 < h" "0 < cw" "0 < ch" "\<not> w / h > cw / ch"
  shows "ch * (w / h) / ch = w / h" "ch * (w / h) \<le> cw" "0 < ch * (w / h)"
proof -
  from assms show "ch * (w / h) / ch = w / h" by simp
  from assms have "w / h \<le> cw / ch" by simp
  then have "w / h * ch \<le> cw" using assms(4) by (simp only: pos_le_divide_eq)
  then show "ch * (w / h) \<le> cw" by (simp only: mult.commute)
  from assms show "0 < ch * (w / h)" by simp
qed

text \<open>
  Claim C5. For a frame with positive natural width and height on a canvas with positive
  width and height, \<^verbatim>\<open>drawImageContain\<close> draws the frame once. If the aspect ratio of the
  frame is greater than that of the canvas, the drawn rectangle has the width of the
  canvas and is centred vertically; otherwise it has the height of the canvas and is
  centred horizontally. The rectangle has the aspect ratio of the frame and lies within
  the canvas.
\<close>

theorem aspect_fit_placement:
  assumes "0 < w" and "0 < h" and "0 < cw" and "0 < ch"
    and "e = HTMLImageElement w h \<or> e = HTMLVideoElement w h d"
  shows "\<exists>offsetX offsetY renderW renderH.
     drawImageContain (Some e) cw ch = Inr [DrawImage e offsetX offsetY renderW renderH]
     \<and> (if rat_of_nat w / rat_of_nat h > cw / ch
         then renderW = cw \<and> offsetX = 0 \<and> offsetY = (ch - renderH) / 2
         else renderH = ch \<and> offsetY = 0 \<and> offsetX = (cw - renderW) / 2)
     \<and> 0 < renderW \<and> 0 < renderH
     \<and> renderW / renderH = rat_of_nat w / rat_of_nat h
     \<and> 0 \<le> offsetX \<and> 0 \<le> offsetY
     \<and> offsetX + renderW \<le> cw \<and> offsetY + renderH \<le> ch"
proof -
  have pos: "0 < rat_of_nat w" "0 < rat_of_nat h" using assms(1,2) by simp_all
  show ?thesis
  proof (cases "rat_of_nat w / rat_of_nat h > cw / ch")
    case True
    note f = contain_wide [OF pos assms(3,4) True]
    have "drawImageContain (Some e) cw ch =
        Inr [DrawImage e 0 ((ch - cw / (rat_of_nat w / rat_of_nat h)) / 2) cw
               (cw / (rat_of_nat w / rat_of_nat h))]"
      using assms True by (auto simp: drawImageContain_def wider_than_canvas_def Let_def)
    moreover have "0 \<le> (ch - cw / (rat_of_nat w / rat_of_nat h)) / 2" using f(2) by simp
    moreover have "(ch - cw / (rat_of_nat w / rat_of_nat h)) / 2
        + cw / (rat_of_nat w / rat_of_nat h) \<le> ch"
      using f(2) by (simp add: field_simps)
    ultimately show ?thesis using True f assms(3) by (intro exI conjI) (assumption | simp)+
  next
    case False
    note f = contain_tall [OF pos assms(3,4) False]
    have "drawImageContain (Some e) cw ch =
        Inr [DrawImage e ((cw - ch * (rat_of_nat w / rat_of_nat h)) / 2) 0
               (ch * (rat_of_nat w / rat_of_nat h)) ch]"
      using assms False by (auto simp: drawImageContain_def wider_than_canvas_def Let_def)
    moreover have "0 \<le> (cw - ch * (rat_of_nat w / rat_of_nat h)) / 2" using f(2) by simp
    moreover have "(cw - ch * (rat_of_nat w / rat_of_nat h)) / 2
        + ch * (rat_of_nat w / rat_of_nat h) \<le> cw"
      using f(2) by (simp add: field_simps)
    ultimately show ?thesis using False f assms(4) by (intro exI conjI) (assumption | simp)+
  qed
qed

theorem aspect_fit_placement_witness:
  "(0::nat) < 1024 \<and> (0::nat) < 768 \<and> (0::rat) < 1920 \<and> (0::rat) < 1080
   \<and> (\<exists>offsetX offsetY renderW renderH.
     drawImageContain (Some (HTMLImageElement 1024 768)) 1920 1080
       = Inr [DrawImage (HTMLImageElement 1024 768) offsetX offsetY renderW renderH]
     \<and> (if rat_of_nat 1024 / rat_of_nat 768 > 1920 / 1080
         then renderW = 1920 \<and> offsetX = 0 \<and> offsetY = (1080 - renderH) / 2
         else renderH = 1080 \<and> offsetY = 0 \<and> offsetX = (1920 - renderW) / 2)
     \<and> 0 < renderW \<and> 0 < renderH
     \<and> renderW / renderH = rat_of_nat 1024 / rat_of_nat 768
     \<and> 0 \<le> offsetX \<and> 0 \<le> offsetY
     \<and> offsetX + renderW \<le> 1920 \<and> offsetY + renderH \<le> 1080)"
  using aspect_fit_placement [of 1024 768 1920 1080 "HTMLImageElement 1024 768"]
  by simp

text \<open>
  Claim C10. When the natural width or the natural height of a frame is zero,
  \<^verbatim>\<open>drawImageContain\<close> returns without a draw call, and the frame of the tick consists of
  the black \<^verbatim>\<open>fillRect\<close> followed by no draw call (for a video, only the assignment to
  \<^verbatim>\<open>currentTime\<close>): the canvas stays black.
\<close>

theorem zero_size_draws_nothing:
  assumes "w = 0 \<or> h = 0"
    and "e = HTMLImageElement w h \<or> e = HTMLVideoElement w h d"
    and "element item = Some e"
  shows "drawImageContain (Some e) cw ch = Inr []
    \<and> (\<exists>fx. drawFrame cw ch item t = (FillRect ''#000000'' 0 0 cw ch # fx, None)
          \<and> (\<forall>x\<in>set fx. \<exists>v. x = SetCurrentTime e v))"
proof -
  have none: "drawImageContain (Some e) cw ch = Inr []"
    using assms(1,2) by (auto simp: drawImageContain_def)
  show ?thesis
  proof (cases "item_type item = Image")
    case True
    with none assms(3) have "drawFrame cw ch item t = ([FillRect ''#000000'' 0 0 cw ch], None)"
      by (simp add: drawFrame_def)
    with none show ?thesis by simp
  next
    case False
    with none assms(3) have "drawFrame cw ch item t =
        ([FillRect ''#000000'' 0 0 cw ch,
          SetCurrentTime e (js_rem (t - start item) (duration item))], None)"
      by (simp add: drawFrame_def)
    with none show ?thesis by simp
  qed
qed

theorem zero_size_draws_nothing_witness:
  "((0::nat) = 0 \<or> (720::nat) = 0)
   \<and> drawImageContain (Some (HTMLVideoElement 0 720 (Some 8))) 1920 1080 = Inr []
   \<and> (\<exists>fx. drawFrame 1920 1080
          \<lparr>assetIndex = 1, start = 8, endT = 16, item_type = Video,
             element = Some (HTMLVideoElement 0 720 (Some 8)), duration = 8\<rparr> 11
          = (FillRect ''#000000'' 0 0 1920 1080 # fx, None)
        \<and> (\<forall>x\<in>set fx. \<exists>v. x = SetCurrentTime (HTMLVideoElement 0 720 (Some 8)) v))"
  using zero_size_draws_nothing [of 0 720 "HTMLVideoElement 0 720 (Some 8)" "Some 8"
      "\<lparr>assetIndex = 1, start = 8, endT = 16, item_type = Video,
         element = Some (HTMLVideoElement 0 720 (Some 8)), duration = 8\<rparr>" 1920 1080 11]
  by simp

subsection \<open>The render pass\<close>

text \<open>
  Claim C6. With zero assets \<^verbatim>\<open>renderVideoBlob\<close> rejects with the error
  \<^verbatim>\<open>Error("Missing content")\<close> (the failure the specification calls EmptyTimelineError)
  before anything else happens: no effect is recorded, so the recorder is never started,
  no timeline is built and no frame is drawn.
\<close>

theorem zero_assets_rejected:
  assumes "assets content = []"
  shows "renderVideoBlob content b = ([], Rejected (Error ''Missing content''))"
  using assms by (simp add: renderVideoBlob_def)

theorem zero_assets_rejected_witness:
  "assets (sample_content\<lparr>assets := []\<rparr>) = [] \<and>
   renderVideoBlob (sample_content\<lparr>assets := []\<rparr>) (sample_browser 12 [0, 6, 12] [])
     = ([], Rejected (Error ''Missing content''))"
  using zero_assets_rejected [of "sample_content\<lparr>assets := []\<rparr>" "sample_browser 12 [0, 6, 12] []"]
  by simp

text \<open>
  A total duration of zero: the loop returns the empty timeline, not an error.
\<close>

theorem zero_duration_builds_empty_timeline:
  "build_timeline [sample_image] [HTMLImageElement 1024 768] 0 = Some (Inr [])"
  by (simp add: build_timeline_def timeline_loop.simps)

text \<open>
  Claim C7, as amended. For a total duration that is zero or negative the timeline loop
  does not fail: it returns the empty timeline, and the first call of the render loop
  (whose elapsed time is not negative) stops the recorder without drawing a frame.
\<close>

theorem nonpositive_duration_no_error:
  assumes "totalDuration \<le> 0" and "0 \<le> elapsed"
  shows "build_timeline assetList loadedAssets totalDuration = Some (Inr [])
    \<and> renderLoop [] totalDuration cw ch elapsed = ([RecorderStop], Stop)"
  using assms by (simp add: build_timeline_def timeline_loop.simps renderLoop_def)

theorem nonpositive_duration_no_error_witness:
  "(0::rat) \<le> 0
   \<and> build_timeline [sample_image] [HTMLImageElement 1024 768] 0 = Some (Inr [])
   \<and> renderLoop [] 0 1920 1080 0 = ([RecorderStop], Stop)"
  using nonpositive_duration_no_error [of 0 0 "[sample_image]" "[HTMLImageElement 1024 768]" 1920 1080]
  by simp

lemma deliver_datas:
  "ErrorEvent \<notin> set events \<Longrightarrow>
     deliver events chunks = Inr (chunks @ filter (\<lambda>d. length (bytes d) > 0) (datas events))"
  by (induction events chunks rule: deliver.induct) (auto simp: ondataavailable_def)

lemma concat_nonempty_chunks:
  "concat (map bytes (filter (\<lambda>d. bytes d \<noteq> []) ds)) = concat (map bytes ds)"
  by (induction ds) auto

text \<open>
  A render pass in which the recorder delivers no chunk: the promise resolves with an
  empty blob.
\<close>

theorem zero_chunks_resolve_empty_blob:
  "renderVideoBlob sample_content (sample_browser 12 [0, 6, 12] []) =
     ([RecorderStart, SourceStart,
       FillRect ''#000000'' 0 0 1920 1080, DrawImage (HTMLImageElement 1024 768) 240 0 1440 1080,
       FillRect ''#000000'' 0 0 1920 1080, DrawImage (HTMLImageElement 1024 768) 240 0 1440 1080,
       RecorderStop, AudioClose],
      Resolved (Blob [] ''video/webm''))"
  by (simp add: renderVideoBlob_def sample_content_def sample_browser_def sample_image_def
      loadAsset_def build_timeline_def timeline_loop.simps renderLoop_def activeItem_def
      drawFrame_def drawImageContain_def wider_than_canvas_def settle_def onstop_def Let_def)

text \<open>
  Claim C8, as amended. A render pass that reaches finalization (the recorder has been
  stopped and has reported no error) always resolves: the blob holds the bytes of the
  delivered chunks in arrival order, with type \<^verbatim>\<open>video/webm\<close>. With zero chunks this is
  the empty blob; no error is raised.
\<close>

theorem finalize_concatenates_chunks:
  assumes "ErrorEvent \<notin> set events"
  shows "settle events fx Stop =
     (fx @ [AudioClose], Resolved (Blob (concat (map bytes (datas events))) ''video/webm''))"
  using deliver_datas [OF assms, of "[]"]
  by (simp add: settle_def onstop_def concat_nonempty_chunks)

theorem finalize_concatenates_chunks_witness:
  "ErrorEvent \<notin> set [DataAvailable (Blob [1, 2] ''video/webm''),
       DataAvailable (Blob [] ''video/webm''), DataAvailable (Blob [3] ''video/webm'')]
   \<and> settle [DataAvailable (Blob [1, 2] ''video/webm''),
       DataAvailable (Blob [] ''video/webm''), DataAvailable (Blob [3] ''video/webm'')]
      [RecorderStart, SourceStart, RecorderStop] Stop =
     ([RecorderStart, SourceStart, RecorderStop, AudioClose],
      Resolved (Blob [1, 2, 3] ''video/webm''))"
  using finalize_concatenates_chunks [of
      "[DataAvailable (Blob [1, 2] ''video/webm''),
        DataAvailable (Blob [] ''video/webm''), DataAvailable (Blob [3] ''video/webm'')]"
      "[RecorderStart, SourceStart, RecorderStop]"]
  by simp

text \<open>
  Conversely, whenever the promise of \<^verbatim>\<open>renderVideoBlob\<close> resolves, the recorder was
  stopped without an error and the blob is that concatenation.
\<close>

lemma deliver_error:
  "ErrorEvent \<in> set events \<Longrightarrow> deliver events chunks = Inl RecorderError"
  by (induction events chunks rule: deliver.induct) auto

lemma settle_resolved:
  assumes "settle events fx r = (fx', Resolved blob)"
  shows "r = Stop \<and> ErrorEvent \<notin> set events
    \<and> blob = Blob (concat (map bytes (datas events))) ''video/webm''"
proof (cases "ErrorEvent \<in> set events")
  case True
  from deliver_error [OF this, of "[]"] assms show ?thesis by (simp add: settle_def)
next
  case False
  from deliver_datas [OF this, of "[]"] assms False show ?thesis
    by (auto simp: settle_def onstop_def concat_nonempty_chunks split: if_splits)
qed

lemma render_resolved:
  assumes "renderVideoBlob content b = (fx, Resolved blob)"
  shows "blob = Blob (concat (map bytes (datas (recorder_events b)))) ''video/webm''"
  using assms
  by (auto simp: renderVideoBlob_def Let_def
      split: if_splits sum.splits option.splits list.splits prod.splits Tick.splits
      dest: settle_resolved)

end
